theory Spec2Isabelle
  imports Main "HOL-Library.Sublist" "HOL-Library.Product_Lexorder"
begin

section \<open>Errors\<close>

text \<open>
  Go's \<open>error\<close> values. \<open>Errorf\<close> carries the message built by \<open>fmt.Errorf\<close>;
  \<open>External\<close> stands for an error handed back by a collaborator outside the
  package (time zone database, time parser, HTTP client).
\<close>

datatype error = Errorf string | External string

section \<open>Time gate\<close>

text \<open>
  \<open>civil.Time\<close>: a time of day without date, with the four integer fields the
  source compares.
\<close>

record Time =
  Hour :: int
  Minute :: int
  Second :: int
  Nanosecond :: int

definition timeBefore :: "Time \<Rightarrow> Time \<Rightarrow> bool" where
  "timeBefore t1 t2 \<longleftrightarrow>
     (Hour t1 < Hour t2) \<or>
     (Hour t1 = Hour t2 \<and> Minute t1 < Minute t2) \<or>
     (Hour t1 = Hour t2 \<and> Minute t1 = Minute t2 \<and> Second t1 < Second t2) \<or>
     (Hour t1 = Hour t2 \<and> Minute t1 = Minute t2 \<and> Second t1 = Second t2
        \<and> Nanosecond t1 < Nanosecond t2)"

text \<open>
  The closure appended by \<open>WhenBetween tz start end\<close>. The three library calls are
  parameters: \<open>loadLocation\<close> is \<open>time.LoadLocation\<close>, \<open>nowIn loc\<close> is
  \<open>civil.TimeOf(time.Now().In(loc))\<close> and \<open>parseTime\<close> is \<open>civil.ParseTime\<close>.
  Go's \<open>(false, err)\<close> is \<open>Inl err\<close>, \<open>(b, nil)\<close> is \<open>Inr b\<close>.
\<close>

definition WhenBetween ::
  "(string \<Rightarrow> error + 'loc) \<Rightarrow> ('loc \<Rightarrow> Time) \<Rightarrow> (string \<Rightarrow> error + Time)
     \<Rightarrow> string \<Rightarrow> string \<Rightarrow> string \<Rightarrow> error + bool" where
  "WhenBetween loadLocation nowIn parseTime tz start end =
     (case loadLocation tz of
        Inl err \<Rightarrow> Inl err
      | Inr loc \<Rightarrow>
          let now = nowIn loc in
          (case parseTime start of
             Inl err \<Rightarrow> Inl err
           | Inr s \<Rightarrow>
               (case parseTime end of
                  Inl err \<Rightarrow> Inl err
                | Inr e \<Rightarrow>
                    if timeBefore e s
                    then Inr (timeBefore s now \<or> timeBefore now e)
                    else Inr (timeBefore s now \<and> timeBefore now e))))"

text \<open>The (hour, minute, second, sub-second) key, ordered lexicographically.\<close>

definition timeKey :: "Time \<Rightarrow> int \<times> int \<times> int \<times> int" where
  "timeKey t = (Hour t, Minute t, Second t, Nanosecond t)"

text \<open>Concrete collaborators used to run the gate on fixed inputs.\<close>

definition hms :: "int \<Rightarrow> int \<Rightarrow> int \<Rightarrow> Time" where
  "hms h m s = \<lparr>Hour = h, Minute = m, Second = s, Nanosecond = 0\<rparr>"

definition utcOnly :: "string \<Rightarrow> error + unit" where
  "utcOnly tz = (if tz = ''UTC'' then Inr () else Inl (External ''unknown time zone''))"

definition clockAt :: "Time \<Rightarrow> unit \<Rightarrow> Time" where
  "clockAt t loc = t"

definition parseHour :: "string \<Rightarrow> error + Time" where
  "parseHour s =
     (if s = ''06:00:00'' then Inr (hms 6 0 0)
      else if s = ''09:00:00'' then Inr (hms 9 0 0)
      else if s = ''17:00:00'' then Inr (hms 17 0 0)
      else if s = ''22:00:00'' then Inr (hms 22 0 0)
      else Inl (External ''parsing time''))"

section \<open>HTML document trees\<close>

text \<open>
  \<open>html.Node\<close> of golang.org/x/net/html, as far as the package reads and writes it:
  \<open>Type\<close>, \<open>Data\<close>, \<open>DataAtom\<close>, \<open>Attr\<close>, \<open>FirstChild\<close> and \<open>NextSibling\<close>.
  A \<open>*html.Node\<close> is \<open>nil\<close> for the nil pointer and \<open>Node \<dots>\<close> otherwise; the
  two pointer fields hold the child list and the rest of the sibling list. The parser
  builds a tree (no node is shared), so updating a node through a pointer is
  rebuilding the term at that position. The fields \<open>Parent\<close>, \<open>PrevSibling\<close>,
  \<open>LastChild\<close> and \<open>Namespace\<close> are neither read nor written by the package and are
  left out.
\<close>

datatype NodeType = ErrorNode | TextNode | DocumentNode | ElementNode | CommentNode | DoctypeNode

record Attribute =
  Namespace :: string
  Key :: string
  Val :: string

datatype Node =
    nil
  | Node (Type: NodeType) (Data: string) (DataAtom: nat) (Attr: "Attribute list")
         (FirstChild: Node) (NextSibling: Node)

text \<open>\<open>atom.A\<close>, the atom of the element name \<open>a\<close>; the zero atom is \<open>0\<close>.\<close>

definition atom_A :: nat where
  "atom_A = 1"

text \<open>
  \<open>strings.Split(s, "\n")\<close>: the pieces of \<open>s\<close> between the separators, in order;
  the empty string gives one empty piece. The last case of the inner \<open>case\<close> cannot
  occur, the result is never empty.
\<close>

fun Split :: "string \<Rightarrow> char \<Rightarrow> string list" where
  "Split [] sep = [[]]"
| "Split (c # cs) sep =
     (if c = sep then [] # Split cs sep
      else (case Split cs sep of
              l # ls \<Rightarrow> (c # l) # ls
            | [] \<Rightarrow> [[c]]))"

definition newline :: char where
  "newline = CHR 0x0A"

text \<open>\<open>strings.HasPrefix(s, p)\<close>; the arguments keep Go's order.\<close>

definition HasPrefix :: "string \<Rightarrow> string \<Rightarrow> bool" where
  "HasPrefix s p \<longleftrightarrow> prefix p s"

text \<open>
  \<open>nodeHasUnlinkedURL\<close> reads \<open>node.Type\<close> and \<open>node.Data\<close> of a non-nil node; the
  model takes the two fields. The \<open>for\<close> loop over the lines with its early
  \<open>return true\<close> is \<open>list_ex\<close>.
\<close>

definition nodeHasUnlinkedURL :: "NodeType \<Rightarrow> string \<Rightarrow> bool" where
  "nodeHasUnlinkedURL ty dat \<longleftrightarrow>
     ty = TextNode \<and>
     list_ex (\<lambda>line. HasPrefix line ''http://'' \<or> HasPrefix line ''https://'')
       (Split dat newline)"

fun hasUnlinkedURL :: "Node \<Rightarrow> bool" where
  "hasUnlinkedURL nil = False"
| "hasUnlinkedURL (Node ty dat da at fc ns) =
     (if ty = ElementNode \<and> dat = ''a'' then False
      else if nodeHasUnlinkedURL ty dat then True
      else if hasUnlinkedURL fc then True
      else if hasUnlinkedURL ns then True
      else False)"

text \<open>
  The loop of \<open>splitTextNodes\<close>: \<open>insertLines lines rest\<close> is the sibling list that
  ends up behind \<open>node\<close> when \<open>rest\<close> was behind it before: one new text node per
  line, a new text node holding a newline between two lines and none after the last.
  A new node has only \<open>Type\<close>, \<open>Data\<close> and \<open>NextSibling\<close> set.
\<close>

fun insertLines :: "string list \<Rightarrow> Node \<Rightarrow> Node" where
  "insertLines [] rest = rest"
| "insertLines [line] rest = Node TextNode line 0 [] nil rest"
| "insertLines (line # lines) rest =
     Node TextNode line 0 [] nil
       (Node TextNode [newline] 0 [] nil (insertLines lines rest))"

text \<open>\<open>splitTextNodes\<close> is only called on a non-nil node.\<close>

fun splitTextNodes :: "Node \<Rightarrow> Node" where
  "splitTextNodes nil = nil"
| "splitTextNodes (Node ty dat da at fc ns) =
     Node ty [] da at fc (insertLines (Split dat newline) ns)"

text \<open>
  The \<open>for iter := node; iter != next; iter = iter.NextSibling\<close> loop of
  \<open>fixUnlinkedURL\<close>. The test \<open>iter != next\<close> compares pointers; \<open>next\<close> is the
  sibling that followed \<open>node\<close> before the split, so the loop visits \<open>node\<close> and
  the nodes inserted by \<open>splitTextNodes\<close>, and \<open>linkRun k\<close> visits the first \<open>k\<close>
  nodes of a sibling list. A visited node for which \<open>nodeHasUnlinkedURL\<close> holds
  gets a new text child with its data, becomes an element, gets an \<open>href\<close>
  attribute with its data appended, and is renamed to \<open>a\<close>.
\<close>

fun linkRun :: "nat \<Rightarrow> Node \<Rightarrow> Node" where
  "linkRun 0 n = n"
| "linkRun (Suc k) nil = nil"
| "linkRun (Suc k) (Node ty dat da at fc ns) =
     (if \<not> nodeHasUnlinkedURL ty dat then Node ty dat da at fc (linkRun k ns)
      else Node ElementNode ''a'' atom_A
             (at @ [\<lparr>Namespace = [], Key = ''href'', Val = dat\<rparr>])
             (Node TextNode dat 0 [] nil nil)
             (linkRun k ns))"

fun fixUnlinkedURL :: "Node \<Rightarrow> Node" where
  "fixUnlinkedURL nil = nil"
| "fixUnlinkedURL (Node ty dat da at fc ns) =
     (if ty = ElementNode \<and> dat = ''a'' then Node ty dat da at fc ns
      else
        let node = Node ty dat da at (fixUnlinkedURL fc) (fixUnlinkedURL ns) in
        if nodeHasUnlinkedURL ty dat
        then linkRun (2 * length (Split dat newline)) (splitTextNodes node)
        else node)"

text \<open>
  The text of a sibling list with everything below it, in document order: what a
  serializer writes between the tags.
\<close>

fun textContent :: "Node \<Rightarrow> string" where
  "textContent nil = []"
| "textContent (Node ty dat da at fc ns) =
     (if ty = TextNode then dat else []) @ textContent fc @ textContent ns"

text \<open>Example trees.\<close>

definition textNode :: "string \<Rightarrow> Node \<Rightarrow> Node" where
  "textNode dat ns = Node TextNode dat 0 [] nil ns"

definition anchorNode :: "string \<Rightarrow> Node \<Rightarrow> Node" where
  "anchorNode url ns =
     Node ElementNode ''a'' atom_A [\<lparr>Namespace = [], Key = ''href'', Val = url\<rparr>]
       (textNode url nil) ns"

definition threeLines :: Node where
  "threeLines =
     textNode (''see http://a.example'' @ [newline] @ ''and not-a-url'' @ [newline]
               @ ''https://b.example'') nil"

definition afterAnchor :: Node where
  "afterAnchor =
     Node ElementNode ''body'' 0 []
       (anchorNode ''http://a.example'' (textNode ''http://b.example'' nil)) nil"

section \<open>Sections\<close>

record Section =
  GID :: string
  Name :: string

text \<open>
  The loop of \<open>GetSectionsByName\<close>: \<open>secsByName[sec.Name] = sec\<close> for each section
  of the list, in list order, starting from the empty map.
\<close>

fun bindSections :: "(string \<rightharpoonup> Section) \<Rightarrow> Section list \<Rightarrow> (string \<rightharpoonup> Section)" where
  "bindSections secsByName [] = secsByName"
| "bindSections secsByName (sec # secs) = bindSections (secsByName(Name sec \<mapsto> sec)) secs"

text \<open>
  \<open>GetSections\<close> pages through the HTTP API; its result for a project is the
  parameter \<open>getSections\<close>.
\<close>

definition GetSectionsByName ::
  "('project \<Rightarrow> error + Section list) \<Rightarrow> 'project \<Rightarrow> error + (string \<rightharpoonup> Section)" where
  "GetSectionsByName getSections project =
     (case getSections project of
        Inl err \<Rightarrow> Inl err
      | Inr secs \<Rightarrow> Inr (bindSections Map.empty secs))"

definition notFound :: "string \<Rightarrow> string \<Rightarrow> error" where
  "notFound kind name = Errorf (kind @ '' '' @ [CHR 0x27] @ name @ [CHR 0x27] @ '' not found'')"

definition GetSectionByName ::
  "('project \<Rightarrow> error + Section list) \<Rightarrow> 'project \<Rightarrow> string \<Rightarrow> error + Section" where
  "GetSectionByName getSections project name =
     (case GetSectionsByName getSections project of
        Inl err \<Rightarrow> Inl err
      | Inr secsByName \<Rightarrow>
          (case secsByName name of
             None \<Rightarrow> Inl (notFound ''Section'' name)
           | Some sec \<Rightarrow> Inr sec))"

section \<open>Query mutators\<close>

text \<open>
  Modelled from the spec: the struct \<open>client.SearchQuery\<close> is declared outside the
  given sources; the record has the fields the mutators read and write. The types of
  users and tags are parameters, a \<open>civil.Date\<close> is a day number, a nil pointer
  field is \<open>None\<close>.
\<close>

type_synonym Date = int

record ('user, 'tag) SearchQuery =
  AssigneeAny :: "'user list"
  SectionsAny :: "Section list"
  TagsAny :: "'tag list"
  TagsNot :: "'tag list"
  DueOn :: "Date option"
  DueAfter :: "Date option"
  DueBefore :: "Date option"
  Completed :: "bool option"
  Due :: "bool option"

text \<open>\<open>&client.SearchQuery{}\<close>: every field zero.\<close>

definition emptyQuery :: "('user, 'tag) SearchQuery" where
  "emptyQuery =
     \<lparr>AssigneeAny = [], SectionsAny = [], TagsAny = [], TagsNot = [],
      DueOn = None, DueAfter = None, DueBefore = None, Completed = None, Due = None\<rparr>"

text \<open>
  Modelled from the spec: \<open>client.TRUE\<close> and \<open>client.FALSE\<close> are declared outside
  the given sources; they are non-nil pointers to the two truth values.
\<close>

definition TRUE :: "bool option" where
  "TRUE = Some True"

definition FALSE :: "bool option" where
  "FALSE = Some False"

text \<open>
  A query mutator receives the query by pointer and returns an error; the model
  returns the error (\<open>None\<close> for nil) and the query as the mutator leaves it.
  \<open>today\<close> is \<open>civil.DateOf(time.Now())\<close>, and \<open>AddDays\<close> adds to the day number.
\<close>

definition DueInDays ::
  "int \<Rightarrow> Date \<Rightarrow> ('u, 't) SearchQuery \<Rightarrow> error option \<times> ('u, 't) SearchQuery" where
  "DueInDays days today q =
     (if DueOn q \<noteq> None then (Some (Errorf ''Multiple clauses set DueOn''), q)
      else (None, q\<lparr>DueOn := Some (today + days)\<rparr>))"

definition DueInAtLeastDays ::
  "int \<Rightarrow> Date \<Rightarrow> ('u, 't) SearchQuery \<Rightarrow> error option \<times> ('u, 't) SearchQuery" where
  "DueInAtLeastDays days today q =
     (if DueAfter q \<noteq> None then (Some (Errorf ''Multiple clauses set DueAfter''), q)
      else (None, q\<lparr>DueAfter := Some (today + days)\<rparr>))"

definition DueInAtMostDays ::
  "int \<Rightarrow> Date \<Rightarrow> ('u, 't) SearchQuery \<Rightarrow> error option \<times> ('u, 't) SearchQuery" where
  "DueInAtMostDays days today q =
     (if DueBefore q \<noteq> None then (Some (Errorf ''Multiple clauses set DueBefore''), q)
      else (None, q\<lparr>DueBefore := Some (today + days)\<rparr>))"

definition OnlyIncomplete ::
  "('u, 't) SearchQuery \<Rightarrow> error option \<times> ('u, 't) SearchQuery" where
  "OnlyIncomplete q =
     (if Completed q \<noteq> None then (Some (Errorf ''Multiple clauses set Completed''), q)
      else (None, q\<lparr>Completed := FALSE\<rparr>))"

definition OnlyComplete ::
  "('u, 't) SearchQuery \<Rightarrow> error option \<times> ('u, 't) SearchQuery" where
  "OnlyComplete q =
     (if Completed q \<noteq> None then (Some (Errorf ''Multiple clauses set Completed''), q)
      else (None, q\<lparr>Completed := TRUE\<rparr>))"

definition WithoutDue ::
  "('u, 't) SearchQuery \<Rightarrow> error option \<times> ('u, 't) SearchQuery" where
  "WithoutDue q =
     (if Due q \<noteq> None then (Some (Errorf ''Multiple clauses set Due''), q)
      else (None, q\<lparr>Due := Some False\<rparr>))"

text \<open>
  The \<open>for _, name := range names\<close> loops of the two tag mutators: a name that the
  map does not bind ends the loop with an error, the tags appended before it stay
  in the query.
\<close>

fun appendTagsAny ::
  "(string \<rightharpoonup> 't) \<Rightarrow> string list \<Rightarrow> ('u, 't) SearchQuery
     \<Rightarrow> error option \<times> ('u, 't) SearchQuery" where
  "appendTagsAny tagsByName [] q = (None, q)"
| "appendTagsAny tagsByName (name # names) q =
     (case tagsByName name of
        None \<Rightarrow> (Some (notFound ''Tag'' name), q)
      | Some tag \<Rightarrow> appendTagsAny tagsByName names (q\<lparr>TagsAny := TagsAny q @ [tag]\<rparr>))"

fun appendTagsNot ::
  "(string \<rightharpoonup> 't) \<Rightarrow> string list \<Rightarrow> ('u, 't) SearchQuery
     \<Rightarrow> error option \<times> ('u, 't) SearchQuery" where
  "appendTagsNot tagsByName [] q = (None, q)"
| "appendTagsNot tagsByName (name # names) q =
     (case tagsByName name of
        None \<Rightarrow> (Some (notFound ''Tag'' name), q)
      | Some tag \<Rightarrow> appendTagsNot tagsByName names (q\<lparr>TagsNot := TagsNot q @ [tag]\<rparr>))"

text \<open>\<open>getTagsByName\<close> is the result of the call \<open>wc.GetTagsByName()\<close>.\<close>

definition WithTagsAnyOf ::
  "string list \<Rightarrow> (error + (string \<rightharpoonup> 't)) \<Rightarrow> ('u, 't) SearchQuery
     \<Rightarrow> error option \<times> ('u, 't) SearchQuery" where
  "WithTagsAnyOf names getTagsByName q =
     (if length (TagsAny q) > 0 then (Some (Errorf ''Multiple clauses set TagsAny''), q)
      else (case getTagsByName of
              Inl err \<Rightarrow> (Some err, q)
            | Inr tagsByName \<Rightarrow> appendTagsAny tagsByName names q))"

definition WithoutTagsAnyOf ::
  "string list \<Rightarrow> (error + (string \<rightharpoonup> 't)) \<Rightarrow> ('u, 't) SearchQuery
     \<Rightarrow> error option \<times> ('u, 't) SearchQuery" where
  "WithoutTagsAnyOf names getTagsByName q =
     (if length (TagsNot q) > 0 then (Some (Errorf ''Multiple clauses set TagsNot''), q)
      else (case getTagsByName of
              Inl err \<Rightarrow> (Some err, q)
            | Inr tagsByName \<Rightarrow> appendTagsNot tagsByName names q))"

text \<open>
  The query mutator of \<open>InMyTasksSections\<close>. \<open>getMe\<close> and \<open>getMyUserTaskList\<close> are
  the results of the calls \<open>wc.GetMe()\<close> and \<open>wc.GetMyUserTaskList()\<close>.
\<close>

fun appendSectionsAny ::
  "(string \<rightharpoonup> Section) \<Rightarrow> string list \<Rightarrow> ('u, 't) SearchQuery
     \<Rightarrow> error option \<times> ('u, 't) SearchQuery" where
  "appendSectionsAny secsByName [] q = (None, q)"
| "appendSectionsAny secsByName (name # names) q =
     (case secsByName name of
        None \<Rightarrow> (Some (notFound ''Section'' name), q)
      | Some sec \<Rightarrow>
          appendSectionsAny secsByName names (q\<lparr>SectionsAny := SectionsAny q @ [sec]\<rparr>))"

definition InMyTasksSections ::
  "string list \<Rightarrow> (error + 'u) \<Rightarrow> (error + 'project)
     \<Rightarrow> ('project \<Rightarrow> error + Section list) \<Rightarrow> ('u, 't) SearchQuery
     \<Rightarrow> error option \<times> ('u, 't) SearchQuery" where
  "InMyTasksSections names getMe getMyUserTaskList getSections q =
     (case getMe of
        Inl err \<Rightarrow> (Some err, q)
      | Inr u \<Rightarrow>
          let q1 = q\<lparr>AssigneeAny := AssigneeAny q @ [u]\<rparr> in
          (case getMyUserTaskList of
             Inl err \<Rightarrow> (Some err, q1)
           | Inr utl \<Rightarrow>
               (case GetSectionsByName getSections utl of
                  Inl err \<Rightarrow> (Some err, q1)
                | Inr secsByName \<Rightarrow> appendSectionsAny secsByName names q1)))"

text \<open>
  The task actor of \<open>MoveToMyTasksSection\<close>. \<open>addTaskToSection\<close> is the call
  \<open>wc.AddTaskToSection\<close>, an HTTP request.
\<close>

definition MoveToMyTasksSection ::
  "string \<Rightarrow> (error + 'project) \<Rightarrow> ('project \<Rightarrow> error + Section list)
     \<Rightarrow> ('task \<Rightarrow> Section \<Rightarrow> error option) \<Rightarrow> 'task \<Rightarrow> error option" where
  "MoveToMyTasksSection name getMyUserTaskList getSections addTaskToSection t =
     (case getMyUserTaskList of
        Inl err \<Rightarrow> Some err
      | Inr utl \<Rightarrow>
          (case GetSectionByName getSections utl name of
             Inl err \<Rightarrow> Some err
           | Inr sec \<Rightarrow> addTaskToSection t sec))"

text \<open>Example collaborators for the mutators.\<close>

definition allSet :: "(nat, nat) SearchQuery" where
  "allSet =
     \<lparr>AssigneeAny = [], SectionsAny = [], TagsAny = [], TagsNot = [],
      DueOn = Some 7, DueAfter = Some 1, DueBefore = Some 30, Completed = Some True,
      Due = Some False\<rparr>"

definition addLog :: "string \<Rightarrow> Section \<Rightarrow> error option" where
  "addLog t sec = (if GID sec = ''3'' then None else Some (External (GID sec)))"

definition twoTags :: "string \<rightharpoonup> nat" where
  "twoTags = [''urgent'' \<mapsto> 1, ''later'' \<mapsto> 2]"

definition dupSections :: "unit \<Rightarrow> error + Section list" where
  "dupSections project =
     Inr [\<lparr>GID = ''1'', Name = ''Today''\<rparr>, \<lparr>GID = ''2'', Name = ''Later''\<rparr>,
          \<lparr>GID = ''3'', Name = ''Today''\<rparr>, \<lparr>GID = ''4'', Name = ''Done''\<rparr>]"

section \<open>Rule execution\<close>

text \<open>
  The stages of a rule are Go closures that may call the remote service, read the
  clock and print. Everything they can change is the world \<open>'w\<close>: a stage takes
  the world and returns its result with the world it leaves. Tasks (\<open>'t\<close>) and the
  handles \<open>'c\<close> and \<open>'wc\<close> are pointers; what they point to is part of the world.
  A query mutator returns the query as it leaves it. The filters of the package
  only read the query, so a filter does not return it.
  The channel \<open>done\<close> of the struct plays no part in \<open>exec\<close> and is left out.
\<close>

record ('c, 'wc, 'q, 't, 'w) periodic =
  workspaceClientGetter :: "'c \<Rightarrow> 'w \<Rightarrow> (error + 'wc) \<times> 'w"
  gates :: "('wc \<Rightarrow> 'w \<Rightarrow> (error + bool) \<times> 'w) list"
  queryMutators :: "('wc \<Rightarrow> 'q \<Rightarrow> 'w \<Rightarrow> (error option \<times> 'q) \<times> 'w) list"
  taskFilters :: "('wc \<Rightarrow> 'q \<Rightarrow> 't \<Rightarrow> 'w \<Rightarrow> (error + bool) \<times> 'w) list"
  taskActors :: "('wc \<Rightarrow> 't \<Rightarrow> 'w \<Rightarrow> error option \<times> 'w) list"

text \<open>
  The loop over \<open>p.gates\<close>. \<open>Inl err\<close>: a gate failed and \<open>exec\<close> returns \<open>err\<close>;
  \<open>Inr False\<close>: a gate said no and \<open>exec\<close> returns nil; \<open>Inr True\<close>: the loop ran
  to its end.
\<close>

fun runGates ::
  "('wc \<Rightarrow> 'w \<Rightarrow> (error + bool) \<times> 'w) list \<Rightarrow> 'wc \<Rightarrow> 'w \<Rightarrow> (error + bool) \<times> 'w" where
  "runGates [] wc w = (Inr True, w)"
| "runGates (g # gs) wc w =
     (case g wc w of
        (Inl err, w') \<Rightarrow> (Inl err, w')
      | (Inr ok, w') \<Rightarrow> if \<not> ok then (Inr False, w') else runGates gs wc w')"

text \<open>The loop over \<open>p.queryMutators\<close>.\<close>

fun runMutators ::
  "('wc \<Rightarrow> 'q \<Rightarrow> 'w \<Rightarrow> (error option \<times> 'q) \<times> 'w) list \<Rightarrow> 'wc \<Rightarrow> 'q \<Rightarrow> 'w
     \<Rightarrow> (error option \<times> 'q) \<times> 'w" where
  "runMutators [] wc q w = ((None, q), w)"
| "runMutators (mut # muts) wc q w =
     (case mut wc q w of
        ((Some err, q'), w') \<Rightarrow> ((Some err, q'), w')
      | ((None, q'), w') \<Rightarrow> runMutators muts wc q' w')"

text \<open>
  The inner loop over \<open>p.taskFilters\<close> for one task: \<open>Inr included\<close> when it ends
  or breaks, \<open>Inl err\<close> when \<open>exec\<close> returns \<open>err\<close>.
\<close>

fun runFilters ::
  "('wc \<Rightarrow> 'q \<Rightarrow> 't \<Rightarrow> 'w \<Rightarrow> (error + bool) \<times> 'w) list \<Rightarrow> 'wc \<Rightarrow> 'q \<Rightarrow> 't \<Rightarrow> 'w
     \<Rightarrow> (error + bool) \<times> 'w" where
  "runFilters [] wc q task w = (Inr True, w)"
| "runFilters (filter0 # filters) wc q task w =
     (case filter0 wc q task w of
        (Inl err, w') \<Rightarrow> (Inl err, w')
      | (Inr include, w') \<Rightarrow>
          if \<not> include then (Inr False, w') else runFilters filters wc q task w')"

text \<open>The outer loop over \<open>tasks\<close>, with \<open>filteredTasks\<close> as it grows.\<close>

fun filterTasks ::
  "('wc \<Rightarrow> 'q \<Rightarrow> 't \<Rightarrow> 'w \<Rightarrow> (error + bool) \<times> 'w) list \<Rightarrow> 'wc \<Rightarrow> 'q \<Rightarrow> 't list
     \<Rightarrow> 't list \<Rightarrow> 'w \<Rightarrow> (error + 't list) \<times> 'w" where
  "filterTasks filters wc q [] filteredTasks w = (Inr filteredTasks, w)"
| "filterTasks filters wc q (task # tasks) filteredTasks w =
     (case runFilters filters wc q task w of
        (Inl err, w') \<Rightarrow> (Inl err, w')
      | (Inr included, w') \<Rightarrow>
          filterTasks filters wc q tasks
            (if included then filteredTasks @ [task] else filteredTasks) w')"

text \<open>The inner loop over \<open>p.taskActors\<close> for one task.\<close>

fun runActors ::
  "('wc \<Rightarrow> 't \<Rightarrow> 'w \<Rightarrow> error option \<times> 'w) list \<Rightarrow> 'wc \<Rightarrow> 't \<Rightarrow> 'w \<Rightarrow> error option \<times> 'w" where
  "runActors [] wc task w = (None, w)"
| "runActors (act # acts) wc task w =
     (case act wc task w of
        (Some err, w') \<Rightarrow> (Some err, w')
      | (None, w') \<Rightarrow> runActors acts wc task w')"

text \<open>The outer loop over \<open>filteredTasks\<close>.\<close>

fun actOnTasks ::
  "('wc \<Rightarrow> 't \<Rightarrow> 'w \<Rightarrow> error option \<times> 'w) list \<Rightarrow> 'wc \<Rightarrow> 't list \<Rightarrow> 'w \<Rightarrow> error option \<times> 'w" where
  "actOnTasks acts wc [] w = (None, w)"
| "actOnTasks acts wc (task # tasks) w =
     (case runActors acts wc task w of
        (Some err, w') \<Rightarrow> (Some err, w')
      | (None, w') \<Rightarrow> actOnTasks acts wc tasks w')"

text \<open>
  \<open>exec\<close>. \<open>search\<close> is \<open>wc.Search\<close> and \<open>q0\<close> the fresh \<open>&client.SearchQuery{}\<close>.
  The result is the returned error (\<open>None\<close> for nil) and the world it leaves.
\<close>

definition exec ::
  "('wc \<Rightarrow> 'q \<Rightarrow> 'w \<Rightarrow> (error + 't list) \<times> 'w) \<Rightarrow> 'q \<Rightarrow> ('c, 'wc, 'q, 't, 'w) periodic
     \<Rightarrow> 'c \<Rightarrow> 'w \<Rightarrow> error option \<times> 'w" where
  "exec search q0 p c w =
     (case workspaceClientGetter p c w of
        (Inl err, w1) \<Rightarrow> (Some err, w1)
      | (Inr wc, w1) \<Rightarrow>
     (case runGates (gates p) wc w1 of
        (Inl err, w2) \<Rightarrow> (Some err, w2)
      | (Inr ok, w2) \<Rightarrow> if \<not> ok then (None, w2) else
     (case runMutators (queryMutators p) wc q0 w2 of
        ((Some err, q), w3) \<Rightarrow> (Some err, w3)
      | ((None, q), w3) \<Rightarrow>
     (case search wc q w3 of
        (Inl err, w4) \<Rightarrow> (Some err, w4)
      | (Inr tasks, w4) \<Rightarrow>
     (case filterTasks (taskFilters p) wc q tasks [] w4 of
        (Inl err, w5) \<Rightarrow> (Some err, w5)
      | (Inr filteredTasks, w5) \<Rightarrow> actOnTasks (taskActors p) wc filteredTasks w5)))))"

text \<open>
  The sentence to compare the actor loops with: the calls \<open>(actor, task)\<close> in the
  order "for each task in order, every actor in declaration order", and running a
  list of calls one after the other up to the first error.
\<close>

definition actorCalls :: "'a list \<Rightarrow> 't list \<Rightarrow> ('a \<times> 't) list" where
  "actorCalls acts tasks = concat (map (\<lambda>task. map (\<lambda>act. (act, task)) acts) tasks)"

fun runCalls ::
  "(('wc \<Rightarrow> 't \<Rightarrow> 'w \<Rightarrow> error option \<times> 'w) \<times> 't) list \<Rightarrow> 'wc \<Rightarrow> 'w \<Rightarrow> error option \<times> 'w" where
  "runCalls [] wc w = (None, w)"
| "runCalls ((act, task) # calls) wc w =
     (case act wc task w of
        (Some err, w') \<Rightarrow> (Some err, w')
      | (None, w') \<Rightarrow> runCalls calls wc w')"

text \<open>
  An example rule over a world that is the log of the calls made so far: every
  stage appends its name (and its task) to the log.
\<close>

definition logGetter :: "unit \<Rightarrow> string list \<Rightarrow> (error + unit) \<times> string list" where
  "logGetter c w = (Inr (), w)"

definition logGate :: "string \<Rightarrow> error + bool \<Rightarrow> unit \<Rightarrow> string list \<Rightarrow> (error + bool) \<times> string list" where
  "logGate name r wc w = (r, w @ [name])"

definition logMutator ::
  "string \<Rightarrow> unit \<Rightarrow> nat \<Rightarrow> string list \<Rightarrow> (error option \<times> nat) \<times> string list" where
  "logMutator name wc q w = ((None, Suc q), w @ [name])"

definition logSearch ::
  "string list \<Rightarrow> unit \<Rightarrow> nat \<Rightarrow> string list \<Rightarrow> (error + string list) \<times> string list" where
  "logSearch tasks wc q w = (Inr tasks, w @ [''search''])"

definition logFilter ::
  "string \<Rightarrow> string \<Rightarrow> unit \<Rightarrow> nat \<Rightarrow> string \<Rightarrow> string list \<Rightarrow> (error + bool) \<times> string list" where
  "logFilter name out wc q task w = (Inr (task \<noteq> out), w @ [name @ '' '' @ task])"

definition logActor ::
  "string \<Rightarrow> string \<Rightarrow> unit \<Rightarrow> string \<Rightarrow> string list \<Rightarrow> error option \<times> string list" where
  "logActor name bad wc task w =
     (if task = bad then Some (Errorf name) else None, w @ [name @ '' '' @ task])"

definition logRule ::
  "(unit \<Rightarrow> string list \<Rightarrow> (error + bool) \<times> string list) list
     \<Rightarrow> (unit, unit, nat, string, string list) periodic" where
  "logRule gs =
     \<lparr>workspaceClientGetter = logGetter,
      gates = gs,
      queryMutators = [logMutator ''mutate''],
      taskFilters = [logFilter ''filter'' ''T2''],
      taskActors = [logActor ''print'' [], logActor ''move'' ''T3'']\<rparr>"

section \<open>Properties of the time gate\<close>

lemma timeBefore_timeKey: "timeBefore t1 t2 \<longleftrightarrow> timeKey t1 < timeKey t2"
  by (auto simp: timeBefore_def timeKey_def less_prod_def')


text \<open>
  C2, as stated, fails: at 09:00:00 sharp the gate for 09:00:00 to 17:00:00 says no,
  the comparison with \<open>start\<close> is strict.
\<close>

theorem WhenBetween_at_start_counterexample:
  "WhenBetween utcOnly (clockAt (hms 9 0 0)) parseHour ''UTC'' ''09:00:00'' ''17:00:00''
     = Inr False"
  by (simp add: WhenBetween_def utcOnly_def clockAt_def parseHour_def hms_def timeBefore_def)

text \<open>
  C2, amended: for a valid time zone and valid time-of-day strings the gate succeeds,
  and it is true iff \<open>now\<close> lies strictly between \<open>start\<close> and \<open>end\<close>; when \<open>end\<close>
  is before \<open>start\<close> it is true iff \<open>now\<close> is after \<open>start\<close> or before \<open>end\<close>.
  Times are compared lexicographically on (hour, minute, second, sub-second).
\<close>

theorem WhenBetween_open_interval:
  assumes "loadLocation tz = Inr loc"
    and "parseTime start = Inr s"
    and "parseTime end = Inr e"
  shows "WhenBetween loadLocation nowIn parseTime tz start end =
           Inr (if timeKey e < timeKey s
                then timeKey s < timeKey (nowIn loc) \<or> timeKey (nowIn loc) < timeKey e
                else timeKey s < timeKey (nowIn loc) \<and> timeKey (nowIn loc) < timeKey e)"
  using assms by (simp add: WhenBetween_def timeBefore_timeKey Let_def)

theorem WhenBetween_open_interval_witness:
  "utcOnly ''UTC'' = Inr () \<and> parseHour ''22:00:00'' = Inr (hms 22 0 0)
   \<and> parseHour ''06:00:00'' = Inr (hms 6 0 0)
   \<and> WhenBetween utcOnly (clockAt (hms 23 30 0)) parseHour ''UTC'' ''22:00:00'' ''06:00:00''
       = Inr True"
proof -
  have tz: "utcOnly ''UTC'' = Inr ()" by (simp add: utcOnly_def)
  have s: "parseHour ''22:00:00'' = Inr (hms 22 0 0)" by (simp add: parseHour_def)
  have e: "parseHour ''06:00:00'' = Inr (hms 6 0 0)" by (simp add: parseHour_def)
  show ?thesis
    using WhenBetween_open_interval
            [of utcOnly "''UTC''" "()" parseHour "''22:00:00''" "hms 22 0 0"
                "''06:00:00''" "hms 6 0 0" "clockAt (hms 23 30 0)", OF tz s e] tz s e
    by (simp add: timeKey_def hms_def clockAt_def less_prod_def')
qed

section \<open>Properties of the linkifier\<close>

lemma Split_not_empty: "Split s c \<noteq> []"
  by (induction s) (auto split: list.splits)

lemma Split_no_sep: "l \<in> set (Split s c) \<Longrightarrow> c \<notin> set l"
  by (induction s arbitrary: l) (auto split: list.splits if_splits)

lemma Split_without_sep: "c \<notin> set l \<Longrightarrow> Split l c = [l]"
  by (induction l) auto

lemma nodeHasUnlinkedURL_empty: "\<not> nodeHasUnlinkedURL ty []"
  by (simp add: nodeHasUnlinkedURL_def HasPrefix_def)

lemma nodeHasUnlinkedURL_newline: "\<not> nodeHasUnlinkedURL ty [newline]"
  by (simp add: nodeHasUnlinkedURL_def HasPrefix_def newline_def)

lemma nodeHasUnlinkedURL_Text: "nodeHasUnlinkedURL ty dat \<Longrightarrow> ty = TextNode"
  by (simp add: nodeHasUnlinkedURL_def)

lemma fix_at_url:
  assumes "nodeHasUnlinkedURL ty dat"
  shows "fixUnlinkedURL (Node ty dat da at fc ns) =
         Node ty [] da at (fixUnlinkedURL fc)
           (linkRun (2 * length (Split dat newline) - 1)
              (insertLines (Split dat newline) (fixUnlinkedURL ns)))"
proof -
  have ty: "ty = TextNode" using assms by (rule nodeHasUnlinkedURL_Text)
  obtain k where k: "2 * length (Split dat newline) = Suc k"
    using Split_not_empty [of dat newline] by (cases "Split dat newline") auto
  show ?thesis using assms ty k
    by (simp add: nodeHasUnlinkedURL_empty)
qed

lemma not_has_fix_id: "\<not> hasUnlinkedURL t \<Longrightarrow> fixUnlinkedURL t = t"
  by (induction t) (auto split: if_splits)

lemma has_fix_changes: "hasUnlinkedURL t \<Longrightarrow> fixUnlinkedURL t \<noteq> t"
proof (induction t)
  case nil
  then show ?case by simp
next
  case (Node ty dat da at fc ns)
  show ?case
  proof (cases "nodeHasUnlinkedURL ty dat")
    case True
    then have "dat \<noteq> []" using nodeHasUnlinkedURL_empty by auto
    then show ?thesis using True by (simp only: fix_at_url [OF True]) simp
  next
    case False
    then show ?thesis using Node by (auto split: if_splits)
  qed
qed


lemma linkRun_line_clean:
  assumes "newline \<notin> set line" and "\<not> hasUnlinkedURL (linkRun k ns)"
  shows "\<not> hasUnlinkedURL (linkRun (Suc k) (Node TextNode line 0 [] nil ns))"
proof -
  have "Split line newline = [line]" using assms(1) by (rule Split_without_sep)
  then show ?thesis using assms(2) by (simp add: nodeHasUnlinkedURL_def)
qed

lemma linkRun_newline_clean:
  assumes "\<not> hasUnlinkedURL (linkRun k ns)"
  shows "\<not> hasUnlinkedURL (linkRun (Suc k) (Node TextNode [newline] 0 [] nil ns))"
  using assms by (simp add: nodeHasUnlinkedURL_newline)

lemma linkRun_insertLines_clean:
  assumes "\<forall>l \<in> set lines. newline \<notin> set l" and "lines \<noteq> []"
    and "\<not> hasUnlinkedURL rest"
  shows "\<not> hasUnlinkedURL (linkRun (2 * length lines - 1) (insertLines lines rest))"
  using assms
proof (induction lines rest rule: insertLines.induct)
  case (1 rest)
  then show ?case by simp
next
  case (2 line rest)
  have "\<not> hasUnlinkedURL (linkRun (Suc 0) (Node TextNode line 0 [] nil rest))"
    using 2 by (intro linkRun_line_clean) simp_all
  then show ?case by simp
next
  case (3 line l2 ls rest)
  have n: "2 * length (line # l2 # ls) - 1 = Suc (Suc (2 * length (l2 # ls) - 1))"
    by simp
  have IH: "\<not> hasUnlinkedURL (linkRun (2 * length (l2 # ls) - 1) (insertLines (l2 # ls) rest))"
    using 3 by simp
  have "newline \<notin> set line" using 3 by simp
  then have "\<not> hasUnlinkedURL (linkRun (Suc (Suc (2 * length (l2 # ls) - 1)))
      (Node TextNode line 0 [] nil
         (Node TextNode [newline] 0 [] nil (insertLines (l2 # ls) rest))))"
    using IH by (intro linkRun_line_clean linkRun_newline_clean)
  then show ?case unfolding n insertLines.simps .
qed

lemma fix_clean: "\<not> hasUnlinkedURL (fixUnlinkedURL t)"
proof (induction t)
  case nil
  then show ?case by simp
next
  case (Node ty dat da at fc ns)
  show ?case
  proof (cases "nodeHasUnlinkedURL ty dat")
    case True
    have "\<not> hasUnlinkedURL (linkRun (2 * length (Split dat newline) - 1)
              (insertLines (Split dat newline) (fixUnlinkedURL ns)))"
      using Node.IH(2) Split_no_sep [of _ dat newline] Split_not_empty [of dat newline]
      by (intro linkRun_insertLines_clean) auto
    then show ?thesis using True Node.IH(1)
      by (simp only: fix_at_url [OF True]) (simp add: nodeHasUnlinkedURL_empty)
  next
    case False
    then show ?thesis using Node by auto
  qed
qed

lemmas example_tree_defs = threeLines_def afterAnchor_def textNode_def anchorNode_def
  nodeHasUnlinkedURL_def HasPrefix_def newline_def atom_A_def

text \<open>
  C1: a text node that begins with a URL and follows an anchor element among its
  siblings is not converted. The tree is \<open>body\<close> with the children \<open>a\<close> and the
  text \<open>http://b.example\<close>: the text is linkable, it is not below the anchor, and
  \<open>fixUnlinkedURL\<close> returns the tree as it was; \<open>hasUnlinkedURL\<close> does not see it
  either. The \<open>return\<close> at an anchor leaves out the anchor's following siblings
  together with its subtree.
\<close>

theorem fixUnlinkedURL_stops_at_anchor:
  "nodeHasUnlinkedURL TextNode ''http://b.example''
   \<and> NextSibling (FirstChild afterAnchor) = textNode ''http://b.example'' nil
   \<and> fixUnlinkedURL afterAnchor = afterAnchor
   \<and> \<not> hasUnlinkedURL afterAnchor"
  by (simp add: example_tree_defs)

text \<open>
  C4: \<open>hasUnlinkedURL\<close> is true of a tree iff \<open>fixUnlinkedURL\<close> changes it.
\<close>

theorem hasUnlinkedURL_iff_fix_changes:
  "hasUnlinkedURL t \<longleftrightarrow> fixUnlinkedURL t \<noteq> t"
  using has_fix_changes [of t] not_has_fix_id [of t] by blast

text \<open>
  C5: \<open>fixUnlinkedURL\<close> is idempotent: a second pass returns the tree of the first.
\<close>

theorem fixUnlinkedURL_idempotent:
  "fixUnlinkedURL (fixUnlinkedURL t) = fixUnlinkedURL t"
  by (rule not_has_fix_id) (rule fix_clean)

text \<open>
  C6, as stated, fails: the first line \<open>see http://a.example\<close> does not begin with
  the scheme, and its node is still a text node after the pass.
\<close>

theorem fixUnlinkedURL_first_line_counterexample:
  "Data (NextSibling (fixUnlinkedURL threeLines)) = ''see http://a.example''
   \<and> Type (NextSibling (fixUnlinkedURL threeLines)) = TextNode"
  by (simp add: example_tree_defs eval_nat_numeral)

text \<open>
  C6, amended: the text node is emptied and followed by three line nodes with a
  newline text node between two lines; line 3 becomes an anchor element whose
  \<open>href\<close> and whose only child's text are the line, lines 1 and 2 stay text nodes,
  and the text of the result in document order is the original text.
\<close>

theorem fixUnlinkedURL_three_lines:
  "fixUnlinkedURL threeLines =
     textNode []
       (textNode ''see http://a.example''
         (textNode [newline]
           (textNode ''and not-a-url''
             (textNode [newline]
               (anchorNode ''https://b.example'' nil)))))
   \<and> textContent (fixUnlinkedURL threeLines) = Data threeLines"
  by (simp add: example_tree_defs eval_nat_numeral)

section \<open>Properties of the query mutators\<close>

lemma appendTagsAny_resolved:
  "map tagsByName names = map Some tags \<Longrightarrow>
   appendTagsAny tagsByName names q = (None, q\<lparr>TagsAny := TagsAny q @ tags\<rparr>)"
proof (induction names arbitrary: tags q)
  case Nil
  then show ?case by simp
next
  case (Cons name names)
  then obtain tag rest where "tags = tag # rest" "tagsByName name = Some tag"
    "map tagsByName names = map Some rest"
    by (cases tags) auto
  then show ?case using Cons.IH [of rest] by simp
qed

lemma appendTagsNot_resolved:
  "map tagsByName names = map Some tags \<Longrightarrow>
   appendTagsNot tagsByName names q = (None, q\<lparr>TagsNot := TagsNot q @ tags\<rparr>)"
proof (induction names arbitrary: tags q)
  case Nil
  then show ?case by simp
next
  case (Cons name names)
  then obtain tag rest where "tags = tag # rest" "tagsByName name = Some tag"
    "map tagsByName names = map Some rest"
    by (cases tags) auto
  then show ?case using Cons.IH [of rest] by simp
qed

text \<open>
  C3, as stated, fails: after a \<open>WithTagsAnyOf\<close> mutator has put the tag of
  \<open>urgent\<close> into \<open>TagsAny\<close>, a second \<open>WithTagsAnyOf\<close> mutator for \<open>later\<close> is
  rejected with an error and adds nothing; the same holds for \<open>WithoutTagsAnyOf\<close>
  and \<open>TagsNot\<close>.
\<close>

theorem WithTagsAnyOf_twice_counterexample:
  "WithTagsAnyOf [''urgent''] (Inr twoTags) (emptyQuery :: (nat, nat) SearchQuery)
     = (None, emptyQuery\<lparr>TagsAny := [1]\<rparr>)
   \<and> WithTagsAnyOf [''later''] (Inr twoTags)
         (emptyQuery\<lparr>TagsAny := [1]\<rparr> :: (nat, nat) SearchQuery)
     = (Some (Errorf ''Multiple clauses set TagsAny''), emptyQuery\<lparr>TagsAny := [1]\<rparr>)
   \<and> WithoutTagsAnyOf [''urgent''] (Inr twoTags) (emptyQuery :: (nat, nat) SearchQuery)
     = (None, emptyQuery\<lparr>TagsNot := [1]\<rparr>)
   \<and> WithoutTagsAnyOf [''later''] (Inr twoTags)
         (emptyQuery\<lparr>TagsNot := [1]\<rparr> :: (nat, nat) SearchQuery)
     = (Some (Errorf ''Multiple clauses set TagsNot''), emptyQuery\<lparr>TagsNot := [1]\<rparr>)"
  by (simp add: WithTagsAnyOf_def WithoutTagsAnyOf_def twoTags_def emptyQuery_def)

text \<open>
  C3, amended: tag constraints are not additive across mutators. \<open>WithTagsAnyOf\<close>
  (respectively \<open>WithoutTagsAnyOf\<close>) applied to a query whose \<open>TagsAny\<close>
  (respectively \<open>TagsNot\<close>) already holds a tag fails with the error
  "Multiple clauses set TagsAny" (respectively "TagsNot") and leaves the query as it
  was; applied to a query where that list is empty, with a tag lookup that resolves
  every name, it succeeds and sets the list to the resolved tags in the order of the
  names.
\<close>

theorem tag_mutators_reject_nonempty:
  "(TagsAny q \<noteq> [] \<longrightarrow>
      WithTagsAnyOf names getTagsByName q = (Some (Errorf ''Multiple clauses set TagsAny''), q))
   \<and> (TagsNot q \<noteq> [] \<longrightarrow>
      WithoutTagsAnyOf names getTagsByName q = (Some (Errorf ''Multiple clauses set TagsNot''), q))
   \<and> (TagsAny q = [] \<and> map tagsByName names = map Some tags \<longrightarrow>
      WithTagsAnyOf names (Inr tagsByName) q = (None, q\<lparr>TagsAny := tags\<rparr>))
   \<and> (TagsNot q = [] \<and> map tagsByName names = map Some tags \<longrightarrow>
      WithoutTagsAnyOf names (Inr tagsByName) q = (None, q\<lparr>TagsNot := tags\<rparr>))"
  by (simp add: WithTagsAnyOf_def WithoutTagsAnyOf_def appendTagsAny_resolved
        appendTagsNot_resolved)

theorem tag_mutators_reject_nonempty_witness:
  "TagsAny (emptyQuery\<lparr>TagsAny := [1], TagsNot := [2]\<rparr> :: (nat, nat) SearchQuery) \<noteq> []
   \<and> TagsNot (emptyQuery\<lparr>TagsAny := [1], TagsNot := [2]\<rparr> :: (nat, nat) SearchQuery) \<noteq> []
   \<and> WithTagsAnyOf [''later''] (Inr twoTags) (emptyQuery\<lparr>TagsAny := [1], TagsNot := [2]\<rparr> :: (nat, nat) SearchQuery)
       = (Some (Errorf ''Multiple clauses set TagsAny''), emptyQuery\<lparr>TagsAny := [1], TagsNot := [2]\<rparr>)
   \<and> WithoutTagsAnyOf [''later''] (Inr twoTags) (emptyQuery\<lparr>TagsAny := [1], TagsNot := [2]\<rparr> :: (nat, nat) SearchQuery)
       = (Some (Errorf ''Multiple clauses set TagsNot''), emptyQuery\<lparr>TagsAny := [1], TagsNot := [2]\<rparr>)
   \<and> TagsAny (emptyQuery :: (nat, nat) SearchQuery) = []
   \<and> TagsNot (emptyQuery :: (nat, nat) SearchQuery) = []
   \<and> map twoTags [''later'', ''urgent''] = map Some [2, 1]
   \<and> WithTagsAnyOf [''later'', ''urgent''] (Inr twoTags) (emptyQuery :: (nat, nat) SearchQuery)
       = (None, emptyQuery\<lparr>TagsAny := [2, 1]\<rparr>)
   \<and> WithoutTagsAnyOf [''later'', ''urgent''] (Inr twoTags) (emptyQuery :: (nat, nat) SearchQuery)
       = (None, emptyQuery\<lparr>TagsNot := [2, 1]\<rparr>)"
proof -
  have m: "map twoTags [''later'', ''urgent''] = map Some [2, 1]"
    by (simp add: twoTags_def)
  show ?thesis
    using tag_mutators_reject_nonempty
            [of "emptyQuery\<lparr>TagsAny := [1], TagsNot := [2]\<rparr> :: (nat, nat) SearchQuery"
                "[''later'']" "Inr twoTags" twoTags "[]"]
          tag_mutators_reject_nonempty
            [of "emptyQuery :: (nat, nat) SearchQuery" "[''later'', ''urgent'']"
                "Inr twoTags" twoTags "[2, 1]"]
          m
    by (simp add: emptyQuery_def)
qed

text \<open>
  C9: for every query, a second \<open>OnlyIncomplete\<close> fails with an error; and each
  mutator of a singular field (\<open>DueInDays\<close>, \<open>DueInAtLeastDays\<close>, \<open>DueInAtMostDays\<close>,
  \<open>OnlyIncomplete\<close>, \<open>OnlyComplete\<close>, \<open>WithoutDue\<close>) fails when its field is
  already set and leaves the query, hence the value set before, unchanged. Each of
  them leaves its field set, so the field is set after an earlier mutator of the rule.
\<close>

theorem singular_mutators_reject:
  "(let q1 = snd (OnlyIncomplete q)
    in OnlyIncomplete q1 = (Some (Errorf ''Multiple clauses set Completed''), q1))
   \<and> (DueOn q \<noteq> None \<longrightarrow>
        DueInDays days today q = (Some (Errorf ''Multiple clauses set DueOn''), q))
   \<and> (DueAfter q \<noteq> None \<longrightarrow>
        DueInAtLeastDays days today q = (Some (Errorf ''Multiple clauses set DueAfter''), q))
   \<and> (DueBefore q \<noteq> None \<longrightarrow>
        DueInAtMostDays days today q = (Some (Errorf ''Multiple clauses set DueBefore''), q))
   \<and> (Completed q \<noteq> None \<longrightarrow>
        OnlyIncomplete q = (Some (Errorf ''Multiple clauses set Completed''), q)
        \<and> OnlyComplete q = (Some (Errorf ''Multiple clauses set Completed''), q))
   \<and> (Due q \<noteq> None \<longrightarrow>
        WithoutDue q = (Some (Errorf ''Multiple clauses set Due''), q))
   \<and> DueOn (snd (DueInDays days today q)) \<noteq> None
   \<and> DueAfter (snd (DueInAtLeastDays days today q)) \<noteq> None
   \<and> DueBefore (snd (DueInAtMostDays days today q)) \<noteq> None
   \<and> Completed (snd (OnlyIncomplete q)) \<noteq> None
   \<and> Completed (snd (OnlyComplete q)) \<noteq> None
   \<and> Due (snd (WithoutDue q)) \<noteq> None"
  by (auto simp: OnlyIncomplete_def OnlyComplete_def DueInDays_def DueInAtLeastDays_def
        DueInAtMostDays_def WithoutDue_def TRUE_def FALSE_def Let_def)

theorem singular_mutators_reject_witness:
  "DueOn allSet \<noteq> None \<and> DueAfter allSet \<noteq> None \<and> DueBefore allSet \<noteq> None
   \<and> Completed allSet \<noteq> None \<and> Due allSet \<noteq> None
   \<and> DueInDays 3 100 allSet = (Some (Errorf ''Multiple clauses set DueOn''), allSet)
   \<and> DueInAtLeastDays 3 100 allSet = (Some (Errorf ''Multiple clauses set DueAfter''), allSet)
   \<and> DueInAtMostDays 3 100 allSet = (Some (Errorf ''Multiple clauses set DueBefore''), allSet)
   \<and> OnlyIncomplete allSet = (Some (Errorf ''Multiple clauses set Completed''), allSet)
   \<and> OnlyComplete allSet = (Some (Errorf ''Multiple clauses set Completed''), allSet)
   \<and> WithoutDue allSet = (Some (Errorf ''Multiple clauses set Due''), allSet)
   \<and> Completed allSet = Some True"
  using singular_mutators_reject [of allSet 3 100]
  by (simp add: allSet_def)

section \<open>Properties of the section lookup\<close>

lemma bindSections_append:
  "bindSections m (xs @ ys) = bindSections (bindSections m xs) ys"
  by (induction xs arbitrary: m) auto

lemma bindSections_other:
  "\<forall>s \<in> set secs. Name s \<noteq> n \<Longrightarrow> bindSections m secs n = m n"
  by (induction secs arbitrary: m) auto

lemma bindSections_last:
  assumes "\<forall>s \<in> set post. Name s \<noteq> Name sec"
  shows "bindSections m (pre @ sec # post) (Name sec) = Some sec"
  using assms by (simp add: bindSections_append bindSections_other)

text \<open>
  C10: when the section list of a project holds a section \<open>sec\<close> and no later
  section of the list has its name, \<open>GetSectionsByName\<close> binds the name to \<open>sec\<close>,
  whatever sections of that name come earlier in the list, without an error; so
  \<open>GetSectionByName\<close>, the query mutator of \<open>InMyTasksSections\<close> and the actor of
  \<open>MoveToMyTasksSection\<close> resolve the name to this last section.
\<close>

theorem last_section_of_a_name_wins:
  assumes "getSections project = Inr (pre @ sec # post)"
    and "\<forall>s \<in> set post. Name s \<noteq> Name sec"
  shows "(case GetSectionsByName getSections project of
            Inl err \<Rightarrow> False
          | Inr secsByName \<Rightarrow> secsByName (Name sec) = Some sec)
         \<and> GetSectionByName getSections project (Name sec) = Inr sec
         \<and> InMyTasksSections [Name sec] (Inr u) (Inr project) getSections q
             = (None, q\<lparr>AssigneeAny := AssigneeAny q @ [u],
                        SectionsAny := SectionsAny q @ [sec]\<rparr>)
         \<and> MoveToMyTasksSection (Name sec) (Inr project) getSections addTaskToSection t
             = addTaskToSection t sec"
proof -
  have m: "GetSectionsByName getSections project
             = Inr (bindSections Map.empty (pre @ sec # post))"
    using assms(1) by (simp add: GetSectionsByName_def)
  have b: "bindSections Map.empty (pre @ sec # post) (Name sec) = Some sec"
    using assms(2) by (rule bindSections_last)
  have g: "GetSectionByName getSections project (Name sec) = Inr sec"
    by (simp add: GetSectionByName_def m b)
  show ?thesis
    by (simp add: m b g InMyTasksSections_def MoveToMyTasksSection_def)
qed

theorem last_section_of_a_name_wins_witness:
  "dupSections () = Inr ([\<lparr>GID = ''1'', Name = ''Today''\<rparr>, \<lparr>GID = ''2'', Name = ''Later''\<rparr>]
                          @ \<lparr>GID = ''3'', Name = ''Today''\<rparr> # [\<lparr>GID = ''4'', Name = ''Done''\<rparr>])
   \<and> Name \<lparr>GID = ''4'', Name = ''Done''\<rparr> \<noteq> ''Today''
   \<and> GetSectionByName dupSections () ''Today'' = Inr \<lparr>GID = ''3'', Name = ''Today''\<rparr>
   \<and> InMyTasksSections [''Today''] (Inr (5::nat)) (Inr ()) dupSections
         (emptyQuery :: (nat, nat) SearchQuery)
       = (None, emptyQuery\<lparr>AssigneeAny := [5],
                           SectionsAny := [\<lparr>GID = ''3'', Name = ''Today''\<rparr>]\<rparr>)
   \<and> MoveToMyTasksSection ''Today'' (Inr ()) dupSections addLog ''T1'' = None"
proof -
  have d: "dupSections () =
             Inr ([\<lparr>GID = ''1'', Name = ''Today''\<rparr>, \<lparr>GID = ''2'', Name = ''Later''\<rparr>]
                  @ \<lparr>GID = ''3'', Name = ''Today''\<rparr> # [\<lparr>GID = ''4'', Name = ''Done''\<rparr>])"
    by (simp add: dupSections_def)
  have n: "\<forall>s \<in> set [\<lparr>GID = ''4'', Name = ''Done''\<rparr>].
             Name s \<noteq> Name \<lparr>GID = ''3'', Name = ''Today''\<rparr>"
    by simp
  show ?thesis
    using last_section_of_a_name_wins
            [where getSections = dupSections and project = "()"
               and pre = "[\<lparr>GID = ''1'', Name = ''Today''\<rparr>, \<lparr>GID = ''2'', Name = ''Later''\<rparr>]"
               and sec = "\<lparr>GID = ''3'', Name = ''Today''\<rparr>"
               and post = "[\<lparr>GID = ''4'', Name = ''Done''\<rparr>]"
               and u = "5::nat" and q = "emptyQuery :: (nat, nat) SearchQuery"
               and addTaskToSection = addLog and t = "''T1''", OF d n] d
    by (simp add: emptyQuery_def addLog_def)
qed

section \<open>Properties of rule execution\<close>

lemma runCalls_append:
  "runCalls (xs @ ys) wc w =
     (case runCalls xs wc w of
        (Some err, w') \<Rightarrow> (Some err, w')
      | (None, w') \<Rightarrow> runCalls ys wc w')"
  by (induction xs arbitrary: w) (auto split: prod.splits option.splits)

lemma runActors_runCalls:
  "runActors acts wc task w = runCalls (map (\<lambda>act. (act, task)) acts) wc w"
  by (induction acts arbitrary: w) (auto split: prod.splits option.splits)

lemma actOnTasks_runCalls:
  "actOnTasks acts wc tasks w = runCalls (actorCalls acts tasks) wc w"
  by (induction tasks arbitrary: w)
     (auto simp: actorCalls_def runCalls_append runActors_runCalls
           split: prod.splits option.splits)

lemma runCalls_first_error:
  assumes "runCalls before wc w = (None, w1)" and "act wc task w1 = (Some err, w2)"
  shows "runCalls (before @ (act, task) # after) wc w = (Some err, w2)"
  using assms by (simp add: runCalls_append)

lemma filterTasks_kept:
  "filterTasks filters wc q tasks acc w = (Inr out, w') \<Longrightarrow>
   \<exists>kept. out = acc @ kept \<and> subseq kept tasks"
proof (induction tasks arbitrary: acc w)
  case Nil
  then show ?case by simp
next
  case (Cons task tasks)
  from Cons.prems obtain included w1 where
    r: "runFilters filters wc q task w = (Inr included, w1)" and
    f: "filterTasks filters wc q tasks (if included then acc @ [task] else acc) w1 = (Inr out, w')"
    by (auto split: prod.splits sum.splits)
  from Cons.IH [OF f] obtain kept where
    k: "out = (if included then acc @ [task] else acc) @ kept" "subseq kept tasks"
    by blast
  show ?case
  proof (cases included)
    case True
    then have "out = acc @ (task # kept)" "subseq (task # kept) (task # tasks)"
      using k by simp_all
    then show ?thesis by blast
  next
    case False
    then have "out = acc @ kept" "subseq kept (task # tasks)"
      using k by auto
    then show ?thesis by blast
  qed
qed

lemma filterTasks_subseq:
  "filterTasks filters wc q tasks [] w = (Inr out, w') \<Longrightarrow> subseq out tasks"
  using filterTasks_kept [of filters wc q tasks "[]" w out w'] by auto

lemma runGates_split:
  assumes "runGates before wc w = (Inr True, w1)"
  shows "runGates (before @ g # after) wc w =
           (case g wc w1 of
              (Inl err, w2) \<Rightarrow> (Inl err, w2)
            | (Inr ok, w2) \<Rightarrow> if \<not> ok then (Inr False, w2) else runGates after wc w2)"
  using assms
  by (induction before arbitrary: w) (auto split: prod.splits sum.splits if_splits)

lemmas log_defs = logRule_def logGetter_def logGate_def logMutator_def logSearch_def
  logFilter_def logActor_def

text \<open>
  C8: gates run in declaration order and stop at the first that does not say yes.
  When the gates before \<open>g\<close> have all returned true, and \<open>g\<close> returns false, \<open>exec\<close>
  returns nil in the world \<open>g\<close> left: no later gate, no mutator, no search, no filter
  and no actor has run. When \<open>g\<close> returns an error, \<open>exec\<close> returns that error, in the
  world \<open>g\<close> left.
\<close>

theorem exec_gate_short_circuit:
  assumes "workspaceClientGetter p c w = (Inr wc, w1)"
    and "gates p = before @ g # after"
    and "runGates before wc w1 = (Inr True, w2)"
  shows "(g wc w2 = (Inr False, w3) \<longrightarrow> exec search q0 p c w = (None, w3))
         \<and> (g wc w2 = (Inl err, w3) \<longrightarrow> exec search q0 p c w = (Some err, w3))"
  using assms(1,2) runGates_split [OF assms(3), of g after]
  by (simp add: exec_def)

theorem exec_gate_short_circuit_witness:
  "exec (logSearch [''T1'', ''T2'']) 0
        (logRule [logGate ''g1'' (Inr True), logGate ''g2'' (Inr False),
                  logGate ''g3'' (Inr True)]) () []
     = (None, [''g1'', ''g2''])
   \<and> exec (logSearch [''T1'', ''T2'']) 0
        (logRule [logGate ''g1'' (Inr True), logGate ''g2'' (Inl (External ''zone'')),
                  logGate ''g3'' (Inr True)]) () []
     = (Some (External ''zone''), [''g1'', ''g2''])"
proof -
  let ?g1 = "logGate ''g1'' (Inr True)" and ?g3 = "logGate ''g3'' (Inr True)"
  let ?no = "logGate ''g2'' (Inr False)" and ?bad = "logGate ''g2'' (Inl (External ''zone''))"
  have getter: "workspaceClientGetter (logRule gs) () [] = (Inr (), [])" for gs
    by (simp add: log_defs)
  have gs: "gates (logRule [?g1, g, ?g3]) = [?g1] @ g # [?g3]" for g
    by (simp add: logRule_def)
  have pre: "runGates [?g1] () [] = (Inr True, [''g1''])"
    by (simp add: logGate_def)
  have no: "?no () [''g1''] = (Inr False, [''g1'', ''g2''])"
    by (simp add: logGate_def)
  have bad: "?bad () [''g1''] = (Inl (External ''zone''), [''g1'', ''g2''])"
    by (simp add: logGate_def)
  have "exec (logSearch [''T1'', ''T2'']) 0 (logRule [?g1, ?no, ?g3]) () []
          = (None, [''g1'', ''g2''])"
    using exec_gate_short_circuit [OF getter gs pre] no by blast
  moreover
  have "exec (logSearch [''T1'', ''T2'']) 0 (logRule [?g1, ?bad, ?g3]) () []
          = (Some (External ''zone''), [''g1'', ''g2''])"
    using exec_gate_short_circuit [OF getter gs pre] bad by blast
  ultimately show ?thesis by simp
qed

text \<open>
  C7: when the gates pass, the mutators succeed, the search returns \<open>tasks\<close> and the
  filter loop keeps \<open>survivors\<close>, then \<open>survivors\<close> is a subsequence of \<open>tasks\<close> (the
  order of the search is kept), and \<open>exec\<close> makes the calls "every actor in
  declaration order, for each surviving task in order", one after the other, up to
  the first error: if the calls before \<open>(act, task)\<close> succeed and \<open>act\<close> fails on
  \<open>task\<close> with \<open>err\<close>, \<open>exec\<close> returns \<open>err\<close> in the world that call left, so none
  of the calls after it is made.
\<close>

theorem exec_actor_order:
  assumes "workspaceClientGetter p c w = (Inr wc, w1)"
    and "runGates (gates p) wc w1 = (Inr True, w2)"
    and "runMutators (queryMutators p) wc q0 w2 = ((None, q), w3)"
    and "search wc q w3 = (Inr tasks, w4)"
    and "filterTasks (taskFilters p) wc q tasks [] w4 = (Inr survivors, w5)"
  shows "subseq survivors tasks
         \<and> exec search q0 p c w = runCalls (actorCalls (taskActors p) survivors) wc w5
         \<and> (\<forall>before act task after w6 err w7.
               actorCalls (taskActors p) survivors = before @ (act, task) # after
               \<and> runCalls before wc w5 = (None, w6)
               \<and> act wc task w6 = (Some err, w7)
               \<longrightarrow> exec search q0 p c w = (Some err, w7))"
proof -
  have e: "exec search q0 p c w = runCalls (actorCalls (taskActors p) survivors) wc w5"
    using assms by (simp add: exec_def actOnTasks_runCalls)
  have s: "subseq survivors tasks"
    using assms(5) by (rule filterTasks_subseq)
  show ?thesis
    using e s by (auto simp: runCalls_first_error)
qed

theorem exec_actor_order_witness:
  "exec (logSearch [''T1'', ''T2'', ''T3'', ''T4'']) 0
        (logRule [logGate ''g1'' (Inr True)]) () []
     = (Some (Errorf ''move''),
        [''g1'', ''mutate'', ''search'', ''filter T1'', ''filter T2'', ''filter T3'',
         ''filter T4'', ''print T1'', ''move T1'', ''print T3'', ''move T3''])
   \<and> subseq [''T1'', ''T3'', ''T4''] [''T1'', ''T2'', ''T3'', ''T4'']"
proof -
  let ?p = "logRule [logGate ''g1'' (Inr True)]"
  let ?print = "logActor ''print'' []" and ?move = "logActor ''move'' ''T3''"
  let ?w5 = "[''g1'', ''mutate'', ''search'', ''filter T1'', ''filter T2'', ''filter T3'',
              ''filter T4'']"
  have getter: "workspaceClientGetter ?p () [] = (Inr (), [])"
    by (simp add: log_defs)
  have gs: "runGates (gates ?p) () [] = (Inr True, [''g1''])"
    by (simp add: log_defs)
  have muts: "runMutators (queryMutators ?p) () 0 [''g1''] = ((None, Suc 0), [''g1'', ''mutate''])"
    by (simp add: log_defs)
  have search: "logSearch [''T1'', ''T2'', ''T3'', ''T4''] () (Suc 0) [''g1'', ''mutate'']
                  = (Inr [''T1'', ''T2'', ''T3'', ''T4''], [''g1'', ''mutate'', ''search''])"
    by (simp add: log_defs)
  have filt: "filterTasks (taskFilters ?p) () (Suc 0) [''T1'', ''T2'', ''T3'', ''T4''] []
                [''g1'', ''mutate'', ''search''] = (Inr [''T1'', ''T3'', ''T4''], ?w5)"
    by (simp add: log_defs)
  note T = exec_actor_order
             [where search = "logSearch [''T1'', ''T2'', ''T3'', ''T4'']",
              OF getter gs muts search filt]
  have calls: "actorCalls (taskActors ?p) [''T1'', ''T3'', ''T4'']
                 = [(?print, ''T1''), (?move, ''T1''), (?print, ''T3'')]
                   @ (?move, ''T3'') # [(?print, ''T4''), (?move, ''T4'')]"
    by (simp add: logRule_def actorCalls_def)
  have before: "runCalls [(?print, ''T1''), (?move, ''T1''), (?print, ''T3'')] () ?w5
                  = (None, ?w5 @ [''print T1'', ''move T1'', ''print T3''])"
    by (simp add: logActor_def)
  have fails: "?move () ''T3'' (?w5 @ [''print T1'', ''move T1'', ''print T3''])
                 = (Some (Errorf ''move''), ?w5 @ [''print T1'', ''move T1'', ''print T3'', ''move T3''])"
    by (simp add: logActor_def)
  have "exec (logSearch [''T1'', ''T2'', ''T3'', ''T4'']) 0 ?p () []
          = (Some (Errorf ''move''), ?w5 @ [''print T1'', ''move T1'', ''print T3'', ''move T3''])"
    using T calls before fails by blast
  moreover have "subseq [''T1'', ''T3'', ''T4''] [''T1'', ''T2'', ''T3'', ''T4'']"
    using T by blast
  ultimately show ?thesis by simp
qed

end
